theory Spec2Isabelle
  imports Main "HOL-Library.Word" "HOL-Library.AList"
begin

section \<open>Data model of analytics.go\<close>

text \<open>
  A Go \<^verbatim>\<open>error\<close> value is represented by its message. \<^verbatim>\<open>log.Error\<close> and
  \<^verbatim>\<open>log.Info\<close> append to the log; \<^verbatim>\<open>log.Error(err)\<close> records the message of \<^verbatim>\<open>err\<close>.
\<close>

type_synonym go_error = string

datatype log_entry = LogError string | LogInfo string

text \<open>
  The way a call of this file can end without returning: \<^verbatim>\<open>log.Panic(err)\<close>, which
  panics with the error it has logged.
\<close>

datatype panic = LogPanic go_error

text \<open>
  \<^verbatim>\<open>type AnalyticsRecord struct\<close> (lines 15-31). \<^verbatim>\<open>ContentLength\<close> is an \<^verbatim>\<open>int64\<close>;
  the \<^verbatim>\<open>int\<close> and \<^verbatim>\<open>time.Month\<close> fields are only formatted, never computed with. The
  \<^verbatim>\<open>time.Time\<close> stamp is opaque here (seconds).
\<close>

record AnalyticsRecord =
  Method :: string
  Path :: string
  ContentLength :: "64 word"
  UserAgent :: string
  Day :: int
  Month :: int
  Year :: int
  Hour :: int
  ResponseCode :: int
  APIKey :: string
  TimeStamp :: int
  APIVersion :: string
  APIName :: string
  ApiId :: string
  OrgId :: string

text \<open>\<^verbatim>\<open>type AnalyticsError struct{}\<close> (line 34): the one error \<^verbatim>\<open>RecordHit\<close> returns.\<close>

datatype AnalyticsError = AnalyticsError

subsection \<open>Formatting\<close>

text \<open>
  \<^verbatim>\<open>strconv.Itoa\<close>, \<^verbatim>\<open>strconv.FormatInt(_, 10)\<close> and the verb \<^verbatim>\<open>%d\<close> of \<^verbatim>\<open>fmt.Sprintf\<close>:
  decimal digits, with a leading minus sign for a negative number.
\<close>

fun digits :: "nat \<Rightarrow> string" where
  "digits n =
     (if n < 10 then [''0123456789'' ! n]
      else digits (n div 10) @ [''0123456789'' ! (n mod 10)])"

declare digits.simps [simp del]

definition Itoa :: "int \<Rightarrow> string" where
  "Itoa i = (if i < 0 then CHR ''-'' # digits (nat (- i)) else digits (nat i))"

definition FormatInt :: "64 word \<Rightarrow> string" where
  "FormatInt n = Itoa (sint n)"

text \<open>
  \<^verbatim>\<open>time.Month.String()\<close> of the Go standard library: the English name for 1..12, and
  the form \<^verbatim>\<open>%!Month(n)\<close> (n read as an unsigned 64-bit number) for any other value.
\<close>

definition longMonthNames :: "string list" where
  "longMonthNames =
     [''January'', ''February'', ''March'', ''April'', ''May'', ''June'', ''July'',
      ''August'', ''September'', ''October'', ''November'', ''December'']"

definition Month_String :: "int \<Rightarrow> string" where
  "Month_String m =
     (if 1 \<le> m \<and> m \<le> 12 then longMonthNames ! nat (m - 1)
      else ''%!Month('' @ digits (nat (m mod 2 ^ 64)) @ '')'')"

section \<open>The staging store\<close>

text \<open>
  Modelled from the spec: \<^verbatim>\<open>RedisStorageManager\<close> (its methods \<^verbatim>\<open>SetKey\<close>,
  \<^verbatim>\<open>GetKeysAndValues\<close> and \<^verbatim>\<open>DeleteKeys\<close>) is not among the sources. The spec gives
  its contract: \<^verbatim>\<open>put(key, value, ttl)\<close>, \<^verbatim>\<open>getAll() -> mapping(key -> value)\<close>,
  \<^verbatim>\<open>deleteMany(keys)\<close>. The store is an association list, so that the order in which
  \<^verbatim>\<open>range\<close> walks the snapshot is the order of the list (Go leaves it unspecified);
  \<^verbatim>\<open>map_of\<close> reads it as the mapping. Expiry is the store's own business: the time to
  live is accepted and not interpreted.
\<close>

type_synonym staging_store = "(string \<times> string) list"

definition SetKey :: "string \<Rightarrow> string \<Rightarrow> int \<Rightarrow> staging_store \<Rightarrow> staging_store" where
  "SetKey keyName val ttl s = AList.update keyName val s"

definition GetKeysAndValues :: "staging_store \<Rightarrow> (string \<times> string) list" where
  "GetKeysAndValues s = s"

definition DeleteKeys :: "string list \<Rightarrow> staging_store \<Rightarrow> staging_store" where
  "DeleteKeys keys s = filter (\<lambda>(k, v). k \<notin> set keys) s"

text \<open>Writes of other goroutines (calls of \<^verbatim>\<open>SetKey\<close>) that reach the store in sequence.\<close>

definition SetKeys :: "(string \<times> string) list \<Rightarrow> staging_store \<Rightarrow> staging_store" where
  "SetKeys kvs s = fold (\<lambda>(k, v). SetKey k v 0) kvs s"

section \<open>The world the handlers act on\<close>

text \<open>
  The state the file reads and writes: the staging store, the log, the file system
  (directories made, and each file as the bytes written to it), the purger's
  \<^verbatim>\<open>dbSession\<close> field and the Mongo collection. A document is an \<^verbatim>\<open>interface{}\<close>:
  \<^verbatim>\<open>None\<close> is the nil interface value.
\<close>

type_synonym document = "AnalyticsRecord option"

record world =
  store :: staging_store
  logs :: "log_entry list"
  dirs :: "string list"
  files :: "(string \<times> string) list"
  dbSession :: "nat option"
  collection :: "document list"

text \<open>\<^verbatim>\<open>time.Now()\<close>, as far as the file reads it.\<close>

record go_time =
  tYear :: int
  tMonth :: int
  tDay :: int
  tHour :: int
  tMinute :: int

text \<open>
  What lies outside the file and is taken as given: the msgpack codec, the global
  \<^verbatim>\<open>config.AnalyticsConfig\<close>, the clock, and the outcome of each call into the operating
  system and the mgo driver. \<^verbatim>\<open>csvEncode r\<close> is the line \<^verbatim>\<open>encoding/csv\<close> writes for the
  record \<^verbatim>\<open>r\<close>: its fields, quoted where the format needs it, separated by commas and
  ended by a newline. \<^verbatim>\<open>fileWrite c b\<close> is the outcome of writing the bytes \<^verbatim>\<open>b\<close> to the
  output file that holds \<^verbatim>\<open>c\<close>: \<^verbatim>\<open>None\<close> when all of \<^verbatim>\<open>b\<close> is written, \<^verbatim>\<open>Some (n, err)\<close>
  when the write fails with \<^verbatim>\<open>err\<close> after \<^verbatim>\<open>n\<close> bytes. \<^verbatim>\<open>Dial\<close> returns the pair
  \<^verbatim>\<open>(*mgo.Session, error)\<close> as Go does, each component possibly nil.
\<close>

record env =
  Marshal :: "AnalyticsRecord \<Rightarrow> go_error + string"
  Unmarshal :: "string \<Rightarrow> go_error + AnalyticsRecord"
  CSVDir :: string
  MongoURL :: string
  MongoCollection :: string
  Now :: go_time
  MkdirAll :: "string \<Rightarrow> go_error option"
  Create :: "string \<Rightarrow> bool"
  csvEncode :: "string list \<Rightarrow> string"
  fileWrite :: "string \<Rightarrow> string \<Rightarrow> (nat \<times> go_error) option"
  Dial :: "string \<Rightarrow> nat option \<times> go_error option"
  Insert :: "string \<Rightarrow> document list \<Rightarrow> go_error option"

section \<open>RedisAnalyticsHandler.RecordHit\<close>

text \<open>
  Line 64: \<^verbatim>\<open>fmt.Sprintf("%d%d%d%d-%s", Year, Month, Day, Hour, u5.String())\<close>; the argument
  \<^verbatim>\<open>u\<close> is the text of the UUID.
\<close>

definition keyName :: "AnalyticsRecord \<Rightarrow> string \<Rightarrow> string" where
  "keyName thisRecord u =
     Itoa (Year thisRecord) @ Itoa (Month thisRecord) @ Itoa (Day thisRecord) @
     Itoa (Hour thisRecord) @ ''-'' @ u"

text \<open>
  Lines 60-75. \<^verbatim>\<open>u5, _ := uuid.NewV4()\<close> yields a UUID and an error, passed here as
  \<^verbatim>\<open>(u, uerr)\<close>: \<^verbatim>\<open>u\<close> is the text \<^verbatim>\<open>u5.String()\<close> of the UUID, \<^verbatim>\<open>uerr\<close> the error that
  line 62 drops. \<^verbatim>\<open>uuid.NewV4\<close> (the gouuid package, outside this file) allocates the
  UUID before it reads the random bytes, so the pointer it returns is never nil: when the
  read fails the UUID comes back as the read left it, together with the error. The key
  is built (line 64) before the encoding error is looked at (line 66).
\<close>

definition RecordHit ::
    "env \<Rightarrow> string \<times> go_error option \<Rightarrow> AnalyticsRecord \<Rightarrow> world
      \<Rightarrow> AnalyticsError option \<times> world" where
  "RecordHit e newV4 thisRecord w =
     (let encoded = Marshal e thisRecord;
          (u, uerr) = newV4;
          key = keyName thisRecord u
      in case encoded of
           Inl err \<Rightarrow>
             (Some AnalyticsError,
              w\<lparr>logs := logs w @ [LogError ''Error encoding analytics data:'', LogError err]\<rparr>)
         | Inr enc \<Rightarrow> (None, w\<lparr>store := SetKey key enc 0 (store w)\<rparr>))"

text \<open>
  What both purgers log for the values of a snapshot that do not decode (lines 118-120
  and 190-192), in the order of the snapshot.
\<close>

definition decode_errors :: "env \<Rightarrow> (string \<times> string) list \<Rightarrow> log_entry list" where
  "decode_errors e kvs =
     concat (map (\<lambda>(k, v). case Unmarshal e v of
                               Inl err \<Rightarrow> [LogError ''Couldn't unmarshal analytics data:'', LogError err]
                             | Inr decoded \<Rightarrow> []) kvs)"

section \<open>CSVPurger\<close>

text \<open>Line 94: the file name; the directory and the year are adjacent in the format string.\<close>

definition CSVPurger_fname :: "string \<Rightarrow> go_time \<Rightarrow> string" where
  "CSVPurger_fname dir curtime =
     dir @ Itoa (tYear curtime) @ ''-'' @ Month_String (tMonth curtime) @ ''-'' @
     Itoa (tDay curtime) @ ''-'' @ Itoa (tHour curtime) @ ''-'' @ Itoa (tMinute curtime) @
     ''.csv''"

text \<open>Line 104.\<close>

definition headers :: "string list" where
  "headers =
     [''METHOD'', ''PATH'', ''SIZE'', ''UA'', ''DAY'', ''MONTH'', ''YEAR'', ''HOUR'',
      ''RESPONSE'', ''APINAME'', ''APIVERSION'']"

text \<open>Lines 122-133.\<close>

definition toWrite :: "AnalyticsRecord \<Rightarrow> string list" where
  "toWrite decoded =
     [Method decoded, Path decoded, FormatInt (ContentLength decoded), UserAgent decoded,
      Itoa (Day decoded), Month_String (Month decoded), Itoa (Year decoded),
      Itoa (Hour decoded), Itoa (ResponseCode decoded), APIName decoded,
      APIVersion decoded]"

subsection \<open>The writer of lines 100-102\<close>

text \<open>
  \<^verbatim>\<open>csv.NewWriter(outfile)\<close> wraps the file in a \<^verbatim>\<open>bufio.Writer\<close> of 4096 bytes. The
  writer is the bytes it holds, the sticky error of its \<^verbatim>\<open>bufio.Writer\<close>, and the file
  underneath: \<^verbatim>\<open>None\<close> is the nil \<^verbatim>\<open>*os.File\<close> that \<^verbatim>\<open>os.Create\<close> returns with an error,
  \<^verbatim>\<open>Some c\<close> a file that holds the bytes \<^verbatim>\<open>c\<close>.
\<close>

definition bufSize :: nat where
  "bufSize = 4096"

record csv_writer =
  wbuf :: string
  werr :: "go_error option"
  outfile :: "string option"

text \<open>
  \<^verbatim>\<open>(*os.File).Write\<close>: the file after the call, the number of bytes written and the
  error. On a nil file it writes nothing and returns \<^verbatim>\<open>os.ErrInvalid\<close>.
\<close>

definition File_Write :: "env \<Rightarrow> string option \<Rightarrow> string \<Rightarrow> string option \<times> nat \<times> go_error option" where
  "File_Write e f b =
     (case f of
        None \<Rightarrow> (None, 0, Some ''invalid argument'')
      | Some c \<Rightarrow>
          (case fileWrite e c b of
             None \<Rightarrow> (Some (c @ b), length b, None)
           | Some (n, err) \<Rightarrow> (Some (c @ take n b), min n (length b), Some err)))"

text \<open>
  \<^verbatim>\<open>(*bufio.Writer).Flush\<close>: nothing happens after an error or on an empty buffer;
  otherwise the buffer goes to the file, and a failed write keeps the bytes not written
  and makes its error the sticky one.
\<close>

definition bufio_Flush :: "env \<Rightarrow> csv_writer \<Rightarrow> csv_writer" where
  "bufio_Flush e wr =
     (if werr wr \<noteq> None then wr
      else if wbuf wr = [] then wr
      else (let (f, n, err) = File_Write e (outfile wr) (wbuf wr);
                err' = (if n < length (wbuf wr) \<and> err = None then Some ''short write'' else err)
            in case err' of
                 Some x \<Rightarrow> wr\<lparr>wbuf := drop n (wbuf wr), werr := Some x, outfile := f\<rparr>
               | None \<Rightarrow> wr\<lparr>wbuf := [], outfile := f\<rparr>))"

text \<open>
  \<^verbatim>\<open>(*bufio.Writer).WriteString\<close>: while the bytes do not fit, the buffer is filled and
  flushed; the rest is kept. After an error nothing more is taken.
\<close>

function bufio_WriteString :: "env \<Rightarrow> csv_writer \<Rightarrow> string \<Rightarrow> csv_writer" where
  "bufio_WriteString e wr s =
     (if werr wr \<noteq> None then wr
      else if length s \<le> bufSize - length (wbuf wr) then wr\<lparr>wbuf := wbuf wr @ s\<rparr>
      else (let n = bufSize - length (wbuf wr);
                wr' = bufio_Flush e (wr\<lparr>wbuf := wbuf wr @ take n s\<rparr>)
            in if werr wr' \<noteq> None then wr' else bufio_WriteString e wr' (drop n s)))"
  by pat_completeness auto
termination
proof (relation "measures [\<lambda>(e, wr, s). length s, \<lambda>(e, wr, s). length (wbuf wr)]", goal_cases)
  case 1
  show ?case by simp
next
  case (2 e wr s n wr')
  from 2(5) 2(4) have empty: "wbuf wr' = []"
    by (auto simp: bufio_Flush_def Let_def split: if_splits prod.splits option.splits)
  show ?case
  proof (cases "n = 0")
    case True
    with 2(3) have "length (wbuf wr) \<ge> bufSize" by simp
    then have "length (wbuf wr) > 0" unfolding bufSize_def by linarith
    with True empty show ?thesis by simp
  next
    case False
    with 2(2) 2(3) show ?thesis by simp arith
  qed
qed

declare bufio_WriteString.simps [simp del]

text \<open>
  \<^verbatim>\<open>(*csv.Writer).Write\<close> sends the line of the record through the buffer, piece by
  piece, and stops at the first error; the error it returns is the sticky one.
  \<^verbatim>\<open>(*csv.Writer).Flush\<close> is \<^verbatim>\<open>bufio_Flush\<close>, and returns nothing.
\<close>

definition csv_Write :: "env \<Rightarrow> csv_writer \<Rightarrow> string list \<Rightarrow> csv_writer" where
  "csv_Write e wr record = bufio_WriteString e wr (csvEncode e record)"

text \<open>
  The loop of lines 114-140 over the snapshot. Its state: \<^verbatim>\<open>keys\<close>, the writer, and the
  log. Every key is appended, decoded or not; a value that does not decode is logged and
  gives no row; an error of \<^verbatim>\<open>writer.Write\<close> is logged and the loop goes on.
\<close>

fun CSVPurger_loop ::
    "env \<Rightarrow> (string \<times> string) list \<Rightarrow> string list \<times> csv_writer \<times> log_entry list
      \<Rightarrow> string list \<times> csv_writer \<times> log_entry list" where
  "CSVPurger_loop e [] st = st"
| "CSVPurger_loop e ((k, v) # kvs) (keys, writer, lg) =
     (case Unmarshal e v of
        Inl err \<Rightarrow>
          CSVPurger_loop e kvs
            (keys @ [k], writer, lg @ [LogError ''Couldn't unmarshal analytics data:'', LogError err])
      | Inr decoded \<Rightarrow>
          (let writer' = csv_Write e writer (toWrite decoded)
           in case werr writer' of
                Some err \<Rightarrow>
                  CSVPurger_loop e kvs
                    (keys @ [k], writer', lg @ [LogError ''File write failed!'', LogError err])
              | None \<Rightarrow> CSVPurger_loop e kvs (keys @ [k], writer', lg)))"

text \<open>What the file system holds once the file of the cycle is closed.\<close>

definition close_file :: "string \<Rightarrow> csv_writer \<Rightarrow> world \<Rightarrow> world" where
  "close_file fname writer w =
     (case outfile writer of
        None \<Rightarrow> w
      | Some c \<Rightarrow> w\<lparr>files := AList.update fname c (files w)\<rparr>)"

text \<open>
  \<^verbatim>\<open>CSVPurger.PurgeCache\<close>, lines 92-144. \<^verbatim>\<open>during\<close> are the writes other goroutines
  make to the store after this cycle has read its snapshot (line 111) and before it
  deletes (line 142); a cycle that runs alone has \<^verbatim>\<open>during = []\<close>. The error of
  \<^verbatim>\<open>os.Create\<close> is dropped (line 100): the writer is then built on the nil file. What
  \<^verbatim>\<open>writer.Flush()\<close> (line 141) did is never asked, and \<^verbatim>\<open>DeleteKeys\<close> (line 142) follows
  it in any case.
\<close>

definition CSVPurger_PurgeCache :: "env \<Rightarrow> (string \<times> string) list \<Rightarrow> world \<Rightarrow> world" where
  "CSVPurger_PurgeCache e during w =
     (let fname = CSVPurger_fname (CSVDir e) (Now e);
          w1 = (case MkdirAll e (CSVDir e) of
                  Some ferr \<Rightarrow> w\<lparr>logs := logs w @ [LogError ferr]\<rparr>
                | None \<Rightarrow> w\<lparr>dirs := List.insert (CSVDir e) (dirs w)\<rparr>);
          created = Create e fname;
          w2 = (if created then w1\<lparr>files := AList.update fname [] (files w1)\<rparr> else w1);
          writer = \<lparr>wbuf = [], werr = None, outfile = (if created then Some [] else None)\<rparr>;
          writer1 = csv_Write e writer headers
      in case werr writer1 of
           Some err \<Rightarrow>
             close_file fname writer1
               (w2\<lparr>logs := logs w2 @ [LogError ''Failed to write file headers!'', LogError err],
                   store := SetKeys during (store w2)\<rparr>)
         | None \<Rightarrow>
             (let KeyValueMap = GetKeysAndValues (store w2);
                  w3 = w2\<lparr>store := SetKeys during (store w2)\<rparr>;
                  (keys, writer2, lg) = CSVPurger_loop e KeyValueMap ([], writer1, logs w3);
                  w4 = w3\<lparr>logs := lg\<rparr>;
                  writer3 = bufio_Flush e writer2;
                  w5 = close_file fname writer3 w4
              in w5\<lparr>store := DeleteKeys keys (store w5)\<rparr>))"

section \<open>MongoPurger\<close>

text \<open>
  \<^verbatim>\<open>MongoPurger.Connect\<close>, lines 154-161: the session field takes whatever \<^verbatim>\<open>mgo.Dial\<close>
  returned; an error is logged and then \<^verbatim>\<open>log.Panic\<close> ends the goroutine.
\<close>

definition MongoPurger_Connect :: "env \<Rightarrow> world \<Rightarrow> panic + world" where
  "MongoPurger_Connect e w =
     (let (sess, err) = Dial e (MongoURL e);
          w1 = w\<lparr>dbSession := sess\<rparr>
      in case err of
           Some msg \<Rightarrow> Inl (LogPanic msg)
         | None \<Rightarrow> Inr w1)"

text \<open>
  The loop of lines 185-197: the slices \<^verbatim>\<open>keys\<close> and \<^verbatim>\<open>keyNames\<close> were made with one
  slot per snapshot entry (nil and the empty string); slot \<^verbatim>\<open>i\<close> of \<^verbatim>\<open>keyNames\<close> always
  takes the key, slot \<^verbatim>\<open>i\<close> of \<^verbatim>\<open>keys\<close> takes the record only when the value decodes.
  The index never leaves the slices, since they are as long as the snapshot.
\<close>

fun MongoPurger_loop ::
    "env \<Rightarrow> (string \<times> string) list \<Rightarrow> nat \<times> document list \<times> string list \<times> log_entry list
      \<Rightarrow> nat \<times> document list \<times> string list \<times> log_entry list" where
  "MongoPurger_loop e [] st = st"
| "MongoPurger_loop e ((k, v) # kvs) (i, keys, keyNames, lg) =
     (case Unmarshal e v of
        Inl err \<Rightarrow>
          MongoPurger_loop e kvs
            (i + 1, keys, keyNames[i := k],
             lg @ [LogError ''Couldn't unmarshal analytics data:'', LogError err])
      | Inr decoded \<Rightarrow>
          MongoPurger_loop e kvs (i + 1, keys[i := Some decoded], keyNames[i := k], lg))"

text \<open>The batch handed to \<^verbatim>\<open>analyticsCollection.Insert(keys...)\<close> (line 199).\<close>

definition MongoPurger_keys :: "env \<Rightarrow> (string \<times> string) list \<Rightarrow> document list" where
  "MongoPurger_keys e KeyValueMap =
     fst (snd (MongoPurger_loop e KeyValueMap
       (0, replicate (length KeyValueMap) None, replicate (length KeyValueMap) [], [])))"

text \<open>
  The \<^verbatim>\<open>else\<close> branch of \<^verbatim>\<open>MongoPurger.PurgeCache\<close>, lines 178-206, run with a session.
  A successful insert adds the batch to the collection.
\<close>

definition MongoPurger_drain :: "env \<Rightarrow> (string \<times> string) list \<Rightarrow> world \<Rightarrow> world" where
  "MongoPurger_drain e during w =
     (let KeyValueMap = GetKeysAndValues (store w);
          w1 = w\<lparr>store := SetKeys during (store w)\<rparr>
      in if length KeyValueMap > 0 then
           (let (i, keys, keyNames, lg) =
                  MongoPurger_loop e KeyValueMap
                    (0, replicate (length KeyValueMap) None,
                     replicate (length KeyValueMap) [], logs w1);
                w2 = w1\<lparr>logs := lg\<rparr>
            in case Insert e (MongoCollection e) keys of
                 Some err \<Rightarrow>
                   w2\<lparr>logs := logs w2 @
                     [LogError ''Problem inserting to mongo collection'', LogError err]\<rparr>
               | None \<Rightarrow>
                   w2\<lparr>collection := collection w2 @ keys,
                      store := DeleteKeys keyNames (store w2)\<rparr>)
         else w1)"

text \<open>
  \<^verbatim>\<open>MongoPurger.PurgeCache\<close>, lines 172-209. Without a session it logs, connects and
  calls itself; the recursion ends only when \<^verbatim>\<open>Connect\<close> has left a session in the
  field, so the result is an option: \<^verbatim>\<open>None\<close> when the call never returns.
\<close>

partial_function (option) MongoPurger_PurgeCache ::
    "env \<Rightarrow> (string \<times> string) list \<Rightarrow> world \<Rightarrow> (panic + world) option" where
  "MongoPurger_PurgeCache e during w =
     (case dbSession w of
        None \<Rightarrow>
          (case MongoPurger_Connect e
                  (w\<lparr>logs := logs w @
                     [LogInfo ''Not connected to analytics store, connecting...'']\<rparr>) of
             Inl p \<Rightarrow> Some (Inl p)
           | Inr w' \<Rightarrow> MongoPurger_PurgeCache e during w')
      | Some sess \<Rightarrow> Some (Inr (MongoPurger_drain e during w)))"

declare MongoPurger_PurgeCache.simps [code]

section \<open>StartPurgeLoop\<close>

text \<open>
  \<^verbatim>\<open>StartPurgeLoop\<close> (lines 84-88 and 165-169) never returns, so it is read statement by
  statement, on the call stack of its goroutine. A frame is one activation of
  \<^verbatim>\<open>StartPurgeLoop\<close>: the statement it stands at, and its argument \<^verbatim>\<open>nextCount\<close>. The
  statement after the call of line 87 (168) is the return of the function.
\<close>

datatype loop_pc = AtSleep | AtPurgeCache | AtStartPurgeLoop | AtReturn

type_synonym frame = "loop_pc \<times> int"

record goroutine =
  stack :: "frame list"
  clock :: int
  wld :: world

text \<open>
  \<^verbatim>\<open>time.Sleep(time.Duration(nextCount) * time.Second)\<close>: the product is taken in
  \<^verbatim>\<open>int64\<close> nanoseconds; a duration that is not positive returns at once.
\<close>

definition Sleep_ns :: "int \<Rightarrow> int" where
  "Sleep_ns nextCount = max 0 (sint (word_of_int nextCount * 1000000000 :: 64 word))"

text \<open>
  One statement of the top frame. \<^verbatim>\<open>PurgeCache t w\<close> is the drain cycle run at time
  \<^verbatim>\<open>t\<close>, \<^verbatim>\<open>None\<close> when it panics or does not return: then the goroutine makes no further
  step. Go calls by pushing a frame: the call of line 87 leaves its caller on the stack,
  waiting at its return.
\<close>

definition StartPurgeLoop_step ::
    "(int \<Rightarrow> world \<Rightarrow> world option) \<Rightarrow> goroutine \<Rightarrow> goroutine option" where
  "StartPurgeLoop_step PurgeCache g =
     (case stack g of
        [] \<Rightarrow> None
      | (AtSleep, nextCount) # fs \<Rightarrow>
          Some (g\<lparr>stack := (AtPurgeCache, nextCount) # fs,
                  clock := clock g + Sleep_ns nextCount\<rparr>)
      | (AtPurgeCache, nextCount) # fs \<Rightarrow>
          (case PurgeCache (clock g) (wld g) of
             None \<Rightarrow> None
           | Some w' \<Rightarrow> Some (g\<lparr>stack := (AtStartPurgeLoop, nextCount) # fs, wld := w'\<rparr>))
      | (AtStartPurgeLoop, nextCount) # fs \<Rightarrow>
          Some (g\<lparr>stack := (AtSleep, nextCount) # (AtReturn, nextCount) # fs\<rparr>)
      | (AtReturn, nextCount) # fs \<Rightarrow> Some (g\<lparr>stack := fs\<rparr>))"

text \<open>
  The two purgers. \<^verbatim>\<open>envs t\<close> is the environment the cycle run at time \<^verbatim>\<open>t\<close> meets.
  \<^verbatim>\<open>MongoPurger.StartPurgeLoop\<close> has a value receiver and passes its copy of the purger,
  session included, to the call of line 168: the session set by one cycle is the one the
  next cycle finds, as with the single field of the world.
\<close>

definition CSVPurger_StartPurgeLoop_step :: "(int \<Rightarrow> env) \<Rightarrow> goroutine \<Rightarrow> goroutine option" where
  "CSVPurger_StartPurgeLoop_step envs =
     StartPurgeLoop_step (\<lambda>t w. Some (CSVPurger_PurgeCache (envs t) [] w))"

definition MongoPurger_StartPurgeLoop_step :: "(int \<Rightarrow> env) \<Rightarrow> goroutine \<Rightarrow> goroutine option" where
  "MongoPurger_StartPurgeLoop_step envs =
     StartPurgeLoop_step
       (\<lambda>t w. case MongoPurger_PurgeCache (envs t) [] w of
                 Some (Inr w') \<Rightarrow> Some w'
               | _ \<Rightarrow> None)"

text \<open>\<^verbatim>\<open>go purger.StartPurgeLoop(nextCount)\<close>: a goroutine with the one frame.\<close>

definition StartPurgeLoop :: "int \<Rightarrow> world \<Rightarrow> goroutine" where
  "StartPurgeLoop nextCount w = \<lparr>stack = [(AtSleep, nextCount)], clock = 0, wld = w\<rparr>"

fun run :: "(goroutine \<Rightarrow> goroutine option) \<Rightarrow> nat \<Rightarrow> goroutine \<Rightarrow> goroutine option" where
  "run step 0 g = Some g"
| "run step (Suc n) g = (case step g of None \<Rightarrow> None | Some g' \<Rightarrow> run step n g')"

section \<open>Concrete records, environments and worlds\<close>

definition rec1 :: AnalyticsRecord where
  "rec1 = \<lparr>Method = ''GET'', Path = ''/widgets'', ContentLength = 512, UserAgent = ''curl'',
            Day = 5, Month = 3, Year = 2014, Hour = 10, ResponseCode = 200,
            APIKey = ''key1'', TimeStamp = 1394015400, APIVersion = ''v1'',
            APIName = ''Widgets'', ApiId = ''1'', OrgId = ''org''\<rparr>"

definition rec2 :: AnalyticsRecord where
  "rec2 = \<lparr>Method = ''POST'', Path = ''/orders'', ContentLength = - 1, UserAgent = ''go'',
            Day = 5, Month = 3, Year = 2014, Hour = 10, ResponseCode = 500,
            APIKey = ''key2'', TimeStamp = 1394015460, APIVersion = ''v2'',
            APIName = ''Orders'', ApiId = ''2'', OrgId = ''org''\<rparr>"

text \<open>
  The line of a record none of whose fields needs quotes: the fields with commas
  between them, and a newline.
\<close>

fun commas :: "string list \<Rightarrow> string" where
  "commas [] = []"
| "commas [f] = f"
| "commas (f # g # fs) = f @ '','' @ commas (g # fs)"

definition csv_line :: "string list \<Rightarrow> string" where
  "csv_line r = commas r @ ''\<newline>''"

text \<open>
  An environment in which every call outside the file succeeds. Its codec knows the two
  records (as the payloads \<^verbatim>\<open>r1\<close> and \<^verbatim>\<open>r2\<close>) and refuses everything else.
\<close>

definition env_ok :: env where
  "env_ok =
     \<lparr>Marshal = (\<lambda>r. if r = rec1 then Inr ''r1'' else if r = rec2 then Inr ''r2''
                      else Inl ''msgpack: unsupported value''),
      Unmarshal = (\<lambda>v. if v = ''r1'' then Inr rec1 else if v = ''r2'' then Inr rec2
                        else Inl ''msgpack: invalid code''),
      CSVDir = ''/tmp/csv'',
      MongoURL = ''localhost'',
      MongoCollection = ''analytics'',
      Now = \<lparr>tYear = 2014, tMonth = 3, tDay = 5, tHour = 10, tMinute = 30\<rparr>,
      MkdirAll = (\<lambda>d. None),
      Create = (\<lambda>f. True),
      csvEncode = csv_line,
      fileWrite = (\<lambda>c b. None),
      Dial = (\<lambda>url. (Some 1, None)),
      Insert = (\<lambda>c docs. None)\<rparr>"

text \<open>
  The same, with an output file that cannot be created, with one that is created and
  then takes no byte, with one that takes ten bytes of a write and then fails, with an
  insert that fails, and with a server that cannot be reached.
\<close>

definition env_no_file :: env where
  "env_no_file = env_ok\<lparr>Create := (\<lambda>f. False)\<rparr>"

definition env_disk_full :: env where
  "env_disk_full = env_ok\<lparr>fileWrite := (\<lambda>c b. Some (0, ''no space left on device''))\<rparr>"

definition env_partial_write :: env where
  "env_partial_write = env_ok\<lparr>fileWrite := (\<lambda>c b. Some (10, ''no space left on device''))\<rparr>"

definition env_insert_fails :: env where
  "env_insert_fails = env_ok\<lparr>Insert := (\<lambda>c docs. Some ''no reachable servers'')\<rparr>"

definition env_dial_fails :: env where
  "env_dial_fails = env_ok\<lparr>Dial := (\<lambda>url. (None, Some ''no reachable servers''))\<rparr>"

text \<open>
  What \<^verbatim>\<open>uuid.NewV4()\<close> returns when the random source cannot be read: the UUID it
  allocated, still all zero, and the error.
\<close>

definition uuid_failed :: "string \<times> go_error option" where
  "uuid_failed = (''00000000-0000-0000-0000-000000000000'', Some ''EOF'')"

definition w_empty :: world where
  "w_empty = \<lparr>store = [], logs = [], dirs = [], files = [], dbSession = None, collection = []\<rparr>"

text \<open>Two staged records; one staged record and one payload that does not decode.\<close>

definition w_two :: world where
  "w_two = w_empty\<lparr>store := [(''20143510-a'', ''r1''), (''20143510-b'', ''r2'')]\<rparr>"

definition w_bad :: world where
  "w_bad = w_empty\<lparr>store := [(''20143510-a'', ''r1''), (''20143510-c'', ''garbage'')]\<rparr>"

section \<open>Facts about the store, the writer and the two loops\<close>

lemma map_of_SetKey: "map_of (SetKey k v ttl s) = (map_of s)(k \<mapsto> v)"
  by (simp add: SetKey_def update_conv')

lemma map_of_DeleteKeys:
  "map_of (DeleteKeys keys s) k = (if k \<in> set keys then None else map_of s k)"
  by (induction s) (auto simp: DeleteKeys_def)

lemma SetKeys_Nil: "SetKeys [] s = s"
  by (simp add: SetKeys_def)

text \<open>
  The flat-file loop appends the key of every entry of the snapshot, whatever becomes of
  its row, and the cycle changes the store only by the deletion at line 143.
\<close>

lemma CSVPurger_loop_keys:
  "fst (CSVPurger_loop e kvs (keys, writer, lg)) = keys @ map fst kvs"
  by (induction kvs arbitrary: keys writer lg) (auto simp: Let_def split: sum.splits option.splits)

lemma store_close_file: "store (close_file fname writer w) = store w"
  by (simp add: close_file_def split: option.splits)

lemma CSVPurger_PurgeCache_store:
  "store (CSVPurger_PurgeCache e during w) = SetKeys during (store w) \<or>
   store (CSVPurger_PurgeCache e during w) =
     DeleteKeys (map fst (GetKeysAndValues (store w))) (SetKeys during (store w))"
  by (simp add: CSVPurger_PurgeCache_def Let_def case_prod_beta CSVPurger_loop_keys store_close_file
      split: option.splits)

text \<open>
  A line that fits in the buffer is only copied there: the write returns nil without
  touching the file. With a header line that fits (it has 68 bytes) the header check of
  lines 106-110 never stops a cycle, and every cycle reaches the deletion.
\<close>

lemma bufio_WriteString_fits:
  "werr wr = None \<Longrightarrow> length (wbuf wr) + length s \<le> bufSize \<Longrightarrow>
     bufio_WriteString e wr s = wr\<lparr>wbuf := wbuf wr @ s\<rparr>"
  by (subst bufio_WriteString.simps) simp

lemma CSVPurger_PurgeCache_header_fits:
  assumes "length (csvEncode e headers) \<le> bufSize"
  shows "store (CSVPurger_PurgeCache e during w) =
     DeleteKeys (map fst (GetKeysAndValues (store w))) (SetKeys during (store w))"
  using assms
  by (simp add: CSVPurger_PurgeCache_def Let_def case_prod_beta CSVPurger_loop_keys store_close_file
      csv_Write_def bufio_WriteString_fits split: option.splits)

text \<open>
  A write that fails part of the way leaves its first bytes in the file: here the flush
  of line 141 gets ten bytes of the header down. The cycle logs nothing and deletes the
  snapshot.
\<close>

lemma CSVPurger_PurgeCache_partial_write:
  "files (CSVPurger_PurgeCache env_partial_write [] w_two) =
     [(''/tmp/csv2014-March-5-10-30.csv'', ''METHOD,PAT'')] \<and>
   logs (CSVPurger_PurgeCache env_partial_write [] w_two) = [] \<and>
   store (CSVPurger_PurgeCache env_partial_write [] w_two) = []"
  by code_simp

text \<open>
  With a file that takes every write, no byte is lost between the writer and the file.
\<close>

lemma bufio_Flush_ok:
  assumes "\<forall>c b. fileWrite e c b = None" and "werr wr = None" and "outfile wr = Some c"
  shows "bufio_Flush e wr = wr\<lparr>wbuf := [], outfile := Some (c @ wbuf wr)\<rparr>"
  using assms by (cases "wbuf wr = []") (auto simp: bufio_Flush_def File_Write_def Let_def)

lemma bufio_WriteString_ok:
  assumes "\<forall>c b. fileWrite e c b = None"
  shows "werr wr = None \<Longrightarrow> outfile wr = Some c \<Longrightarrow>
     werr (bufio_WriteString e wr s) = None \<and>
     outfile (bufio_WriteString e wr s) \<noteq> None \<and>
     the (outfile (bufio_WriteString e wr s)) @ wbuf (bufio_WriteString e wr s) = c @ wbuf wr @ s"
  using assms
proof (induction e wr s arbitrary: c rule: bufio_WriteString.induct)
  case (1 e wr s)
  show ?case
  proof (cases "length s \<le> bufSize - length (wbuf wr)")
    case True
    with 1(2,3) have "bufio_WriteString e wr s = wr\<lparr>wbuf := wbuf wr @ s\<rparr>"
      by (subst bufio_WriteString.simps) simp
    with 1(2,3) show ?thesis by simp
  next
    case False
    define n where "n = bufSize - length (wbuf wr)"
    define wr' where "wr' = bufio_Flush e (wr\<lparr>wbuf := wbuf wr @ take n s\<rparr>)"
    have wr': "wr' = wr\<lparr>wbuf := [], outfile := Some (c @ wbuf wr @ take n s)\<rparr>"
      unfolding wr'_def
      using bufio_Flush_ok[OF 1(4), of "wr\<lparr>wbuf := wbuf wr @ take n s\<rparr>" c] 1(2,3)
      by simp
    then have ok: "werr wr' = None" "outfile wr' = Some (c @ wbuf wr @ take n s)" "wbuf wr' = []"
      using 1(2) by simp_all
    have step: "bufio_WriteString e wr s = bufio_WriteString e wr' (drop n s)"
      using False 1(2) ok(1)
      by (subst bufio_WriteString.simps) (simp add: Let_def n_def[symmetric] wr'_def[symmetric])
    have "werr (bufio_WriteString e wr' (drop n s)) = None \<and>
      outfile (bufio_WriteString e wr' (drop n s)) \<noteq> None \<and>
      the (outfile (bufio_WriteString e wr' (drop n s))) @ wbuf (bufio_WriteString e wr' (drop n s)) =
        (c @ wbuf wr @ take n s) @ wbuf wr' @ drop n s"
      using 1(1)[OF _ False n_def wr'_def _ ok(1) ok(2) 1(4)] 1(2) ok(1) by simp
    with step ok(3) show ?thesis by simp
  qed
qed

lemma csv_Write_ok:
  assumes "\<forall>c b. fileWrite e c b = None" and "werr wr = None" and "outfile wr = Some c"
  shows "werr (csv_Write e wr r) = None \<and> outfile (csv_Write e wr r) \<noteq> None \<and>
     the (outfile (csv_Write e wr r)) @ wbuf (csv_Write e wr r) = c @ wbuf wr @ csvEncode e r"
  unfolding csv_Write_def using bufio_WriteString_ok[OF assms] .

text \<open>
  With a file that takes every write, the loop sends down the line of each entry that
  decodes and nothing for one that does not.
\<close>

lemma CSVPurger_loop_written:
  assumes "\<forall>c b. fileWrite e c b = None"
  shows "werr wr = None \<Longrightarrow> outfile wr = Some c \<Longrightarrow>
    (\<exists>wr'. CSVPurger_loop e kvs (keys, wr, lg) =
        (keys @ map fst kvs, wr', lg @ decode_errors e kvs) \<and>
      werr wr' = None \<and> outfile wr' \<noteq> None \<and>
      the (outfile wr') @ wbuf wr' =
        c @ wbuf wr @ concat (map (\<lambda>(k, v). case Unmarshal e v of
                                                Inl err \<Rightarrow> []
                                              | Inr decoded \<Rightarrow> csvEncode e (toWrite decoded)) kvs))"
proof (induction kvs arbitrary: keys wr lg c)
  case Nil
  then show ?case by (simp add: decode_errors_def)
next
  case (Cons kv kvs)
  obtain k v where kv: "kv = (k, v)" by (cases kv)
  show ?case
  proof (cases "Unmarshal e v")
    case (Inl err)
    from Cons.IH[OF Cons.prems, of "keys @ [k]"
        "lg @ [LogError ''Couldn't unmarshal analytics data:'', LogError err]"]
    show ?thesis using Inl kv by (simp add: decode_errors_def)
  next
    case (Inr d)
    define wr1 where "wr1 = csv_Write e wr (toWrite d)"
    from csv_Write_ok[OF assms Cons.prems, of "toWrite d"]
    have w1: "werr wr1 = None" "outfile wr1 \<noteq> None"
      "the (outfile wr1) @ wbuf wr1 = c @ wbuf wr @ csvEncode e (toWrite d)"
      by (simp_all add: wr1_def)
    then obtain c1 where c1: "outfile wr1 = Some c1" by auto
    define rest where "rest = concat (map (\<lambda>(k, v). case Unmarshal e v of
                                                Inl err \<Rightarrow> []
                                              | Inr decoded \<Rightarrow> csvEncode e (toWrite decoded)) kvs)"
    from Cons.IH[OF w1(1) c1, of "keys @ [k]" lg] obtain wr' where
      wr': "CSVPurger_loop e kvs (keys @ [k], wr1, lg) =
              ((keys @ [k]) @ map fst kvs, wr', lg @ decode_errors e kvs)"
        "werr wr' = None" "outfile wr' \<noteq> None"
        "the (outfile wr') @ wbuf wr' = c1 @ wbuf wr1 @ rest"
      unfolding rest_def by blast
    from wr'(4) have "the (outfile wr') @ wbuf wr' = (the (outfile wr1) @ wbuf wr1) @ rest"
      using c1 by simp
    with w1(3) have content: "the (outfile wr') @ wbuf wr' =
        c @ wbuf wr @ csvEncode e (toWrite d) @ rest"
      by simp
    have "CSVPurger_loop e (kv # kvs) (keys, wr, lg) =
        (keys @ map fst (kv # kvs), wr', lg @ decode_errors e (kv # kvs))"
      using Inr kv w1(1) wr'(1) by (simp add: decode_errors_def wr1_def[symmetric] Let_def)
    moreover have "concat (map (\<lambda>(k, v). case Unmarshal e v of
                                                Inl err \<Rightarrow> []
                                              | Inr decoded \<Rightarrow> csvEncode e (toWrite decoded)) (kv # kvs)) =
        csvEncode e (toWrite d) @ rest"
      using Inr kv by (simp add: rest_def)
    ultimately show ?thesis using wr'(2,3) content by simp
  qed
qed

lemma decoded_lines:
  "map (\<lambda>(k, v). Unmarshal e v) kvs = map Inr ds \<Longrightarrow>
   concat (map (\<lambda>(k, v). case Unmarshal e v of
                            Inl err \<Rightarrow> []
                          | Inr decoded \<Rightarrow> csvEncode e (toWrite decoded)) kvs) =
   concat (map (\<lambda>d. csvEncode e (toWrite d)) ds)"
proof (induction kvs arbitrary: ds)
  case Nil
  then show ?case by simp
next
  case (Cons kv kvs)
  then obtain d ds' where "ds = d # ds'" by (cases ds) auto
  with Cons show ?case by (cases kv) auto
qed

text \<open>
  The Mongo loop, started anywhere: the slots before \<open>i\<close> are filled, the \<open>m\<close> slots from
  \<open>i\<close> on are still as \<^verbatim>\<open>make\<close> left them.
\<close>

lemma MongoPurger_loop_eq:
  assumes "length done = i" and "length names = i" and "length kvs \<le> m"
  shows "MongoPurger_loop e kvs (i, done @ replicate m None, names @ replicate m [], lg) =
    (i + length kvs,
     done @ map (\<lambda>(k, v). case Unmarshal e v of Inl err \<Rightarrow> None | Inr decoded \<Rightarrow> Some decoded) kvs
       @ replicate (m - length kvs) None,
     names @ map fst kvs @ replicate (m - length kvs) [],
     lg @ decode_errors e kvs)"
  using assms
proof (induction kvs arbitrary: i "done" names lg m)
  case Nil
  then show ?case by (simp add: decode_errors_def)
next
  case (Cons kv kvs)
  obtain k v where kv: "kv = (k, v)" by (cases kv)
  from Cons.prems(3) obtain m' where m: "m = Suc m'" by (cases m) auto
  show ?case
  proof (cases "Unmarshal e v")
    case (Inl err)
    have "MongoPurger_loop e (kv # kvs) (i, done @ replicate m None, names @ replicate m [], lg) =
          MongoPurger_loop e kvs
            (Suc i, (done @ [None]) @ replicate m' None, (names @ [k]) @ replicate m' [],
             lg @ [LogError ''Couldn't unmarshal analytics data:'', LogError err])"
      using Inl kv m Cons.prems(1,2) by (simp add: list_update_append)
    also have "\<dots> = (Suc i + length kvs,
       (done @ [None]) @
         map (\<lambda>(k, v). case Unmarshal e v of Inl err \<Rightarrow> None | Inr decoded \<Rightarrow> Some decoded) kvs
         @ replicate (m' - length kvs) None,
       (names @ [k]) @ map fst kvs @ replicate (m' - length kvs) [],
       (lg @ [LogError ''Couldn't unmarshal analytics data:'', LogError err]) @ decode_errors e kvs)"
      using Cons.prems m by (intro Cons.IH) auto
    finally show ?thesis using Inl kv m by (simp add: decode_errors_def)
  next
    case (Inr d)
    have "MongoPurger_loop e (kv # kvs) (i, done @ replicate m None, names @ replicate m [], lg) =
          MongoPurger_loop e kvs
            (Suc i, (done @ [Some d]) @ replicate m' None, (names @ [k]) @ replicate m' [], lg)"
      using Inr kv m Cons.prems(1,2) by (simp add: list_update_append)
    also have "\<dots> = (Suc i + length kvs,
       (done @ [Some d]) @
         map (\<lambda>(k, v). case Unmarshal e v of Inl err \<Rightarrow> None | Inr decoded \<Rightarrow> Some decoded) kvs
         @ replicate (m' - length kvs) None,
       (names @ [k]) @ map fst kvs @ replicate (m' - length kvs) [],
       lg @ decode_errors e kvs)"
      using Cons.prems m by (intro Cons.IH) auto
    finally show ?thesis using Inr kv m by (simp add: decode_errors_def)
  qed
qed

lemma MongoPurger_loop_start:
  "MongoPurger_loop e kvs (0, replicate (length kvs) None, replicate (length kvs) [], lg) =
    (length kvs,
     map (\<lambda>(k, v). case Unmarshal e v of Inl err \<Rightarrow> None | Inr decoded \<Rightarrow> Some decoded) kvs,
     map fst kvs, lg @ decode_errors e kvs)"
  using MongoPurger_loop_eq[of "[]" 0 "[]" kvs "length kvs" e lg] by simp

lemma MongoPurger_keys_eq:
  "MongoPurger_keys e kvs =
     map (\<lambda>(k, v). case Unmarshal e v of Inl err \<Rightarrow> None | Inr decoded \<Rightarrow> Some decoded) kvs"
  by (simp add: MongoPurger_keys_def MongoPurger_loop_start)

text \<open>One unfolding of \<^verbatim>\<open>MongoPurger.PurgeCache\<close> in each of its three ways through.\<close>

lemma MongoPurger_PurgeCache_connected:
  "dbSession w = Some s \<Longrightarrow>
     MongoPurger_PurgeCache e during w = Some (Inr (MongoPurger_drain e during w))"
  by (subst MongoPurger_PurgeCache.simps) simp

lemma MongoPurger_PurgeCache_dial_error:
  "dbSession w = None \<Longrightarrow> Dial e (MongoURL e) = (s, Some msg) \<Longrightarrow>
     MongoPurger_PurgeCache e during w = Some (Inl (LogPanic msg))"
  by (subst MongoPurger_PurgeCache.simps) (simp add: MongoPurger_Connect_def)

lemma MongoPurger_PurgeCache_connects:
  "dbSession w = None \<Longrightarrow> Dial e (MongoURL e) = (Some s, None) \<Longrightarrow>
     MongoPurger_PurgeCache e during w =
       Some (Inr (MongoPurger_drain e during
         (w\<lparr>logs := logs w @ [LogInfo ''Not connected to analytics store, connecting...''],
            dbSession := Some s\<rparr>)))"
  by (subst MongoPurger_PurgeCache.simps)
     (simp add: MongoPurger_Connect_def MongoPurger_PurgeCache_connected)

text \<open>
  A call that returns has found or been given a session: when \<^verbatim>\<open>mgo.Dial\<close> hands back
  neither a session nor an error, \<^verbatim>\<open>PurgeCache\<close> connects again and again and never
  returns.
\<close>

lemma MongoPurger_PurgeCache_returns_connected:
  assumes "MongoPurger_PurgeCache e during w = Some y"
  shows "\<not> (Dial e (MongoURL e) = (None, None) \<and> dbSession w = None)"
  using assms
proof (induction e during w y rule: MongoPurger_PurgeCache.raw_induct[rotated -1, consumes 1])
  case (1 f e1 d1 w1 y1)
  show ?case
  proof
    assume a: "Dial e1 (MongoURL e1) = (None, None) \<and> dbSession w1 = None"
    with 1(2) have "f e1 d1
          (w1\<lparr>logs := logs w1 @ [LogInfo ''Not connected to analytics store, connecting...''],
              dbSession := None\<rparr>) = Some y1"
      by (simp add: MongoPurger_Connect_def)
    from 1(1)[OF this] a show False by simp
  qed
qed

lemma MongoPurger_PurgeCache_never_connected:
  assumes "Dial e (MongoURL e) = (None, None)" and "dbSession w = None"
  shows "MongoPurger_PurgeCache e during w = None"
  using assms MongoPurger_PurgeCache_returns_connected[of e during w]
  by (cases "MongoPurger_PurgeCache e during w") auto

lemma keyName_inj:
  assumes "length u = length u'" and "keyName r u = keyName r' u'"
  shows "u = u'"
proof -
  define p where "p = Itoa (Year r) @ Itoa (Month r) @ Itoa (Day r) @ Itoa (Hour r) @ ''-''"
  define p' where "p' = Itoa (Year r') @ Itoa (Month r') @ Itoa (Day r') @ Itoa (Hour r') @ ''-''"
  from assms(2) have "p @ u = p' @ u'"
    by (simp add: keyName_def p_def p'_def)
  with assms(1) show ?thesis
    by simp
qed

lemma keyName_distinct_uuids:
  "length u = length u' \<Longrightarrow> u \<noteq> u' \<Longrightarrow> keyName r u \<noteq> keyName r' u'"
  using keyName_inj by blast

text \<open>The cycle of the document-store purger, with its loop and its batch worked out.\<close>

lemma MongoPurger_drain_eq:
  "MongoPurger_drain e during w =
     (let kvs = GetKeysAndValues (store w);
          w1 = w\<lparr>store := SetKeys during (store w)\<rparr>
      in if kvs = [] then w1
         else case Insert e (MongoCollection e) (MongoPurger_keys e kvs) of
                Some err \<Rightarrow>
                  w1\<lparr>logs := logs w @ decode_errors e kvs @
                     [LogError ''Problem inserting to mongo collection'', LogError err]\<rparr>
              | None \<Rightarrow>
                  w1\<lparr>logs := logs w @ decode_errors e kvs,
                     collection := collection w @ MongoPurger_keys e kvs,
                     store := DeleteKeys (map fst kvs) (SetKeys during (store w))\<rparr>)"
  by (simp add: MongoPurger_drain_def Let_def MongoPurger_loop_start MongoPurger_keys_eq
      split: option.splits)

lemma MongoPurger_PurgeCache_runs:
  assumes "dbSession w = Some s \<or> (dbSession w = None \<and> Dial e (MongoURL e) = (Some s, None))"
  shows "\<exists>w0. store w0 = store w \<and> collection w0 = collection w \<and>
              MongoPurger_PurgeCache e during w = Some (Inr (MongoPurger_drain e during w0))"
proof (cases "dbSession w")
  case None
  with assms have "Dial e (MongoURL e) = (Some s, None)" by simp
  from MongoPurger_PurgeCache_connects[OF None this, of during] show ?thesis
    by (intro exI[of _ "w\<lparr>logs := logs w @ [LogInfo ''Not connected to analytics store, connecting...''],
            dbSession := Some s\<rparr>"]) simp
next
  case (Some a)
  from MongoPurger_PurgeCache_connected[OF this, of e during] show ?thesis
    by (intro exI[of _ w]) simp
qed

text \<open>
  The goroutine of \<^verbatim>\<open>StartPurgeLoop\<close>: three statements make a cycle, and each cycle
  leaves one more frame waiting at its return.
\<close>

lemma run_add:
  "run step (a + b) g = (case run step a g of None \<Rightarrow> None | Some g' \<Rightarrow> run step b g')"
  by (induction a arbitrary: g) (auto split: option.splits)

lemma StartPurgeLoop_three_steps:
  assumes "stack g = (AtSleep, n) # fs" and "PurgeCache (clock g + Sleep_ns n) (wld g) = Some w'"
  shows "run (StartPurgeLoop_step PurgeCache) 3 g =
     Some (g\<lparr>stack := (AtSleep, n) # (AtReturn, n) # fs, clock := clock g + Sleep_ns n, wld := w'\<rparr>)"
  using assms by (simp add: numeral_3_eq_3 StartPurgeLoop_step_def)

lemma StartPurgeLoop_cycles:
  assumes "\<forall>t w. PurgeCache t w \<noteq> None" and "stack g = (AtSleep, n) # fs"
  shows "\<exists>g'. run (StartPurgeLoop_step PurgeCache) (3 * k) g = Some g' \<and>
              stack g' = (AtSleep, n) # replicate k (AtReturn, n) @ fs"
  using assms(2)
proof (induction k arbitrary: g fs)
  case 0
  then show ?case by simp
next
  case (Suc k)
  from assms(1) obtain w' where w': "PurgeCache (clock g + Sleep_ns n) (wld g) = Some w'"
    by blast
  define g1 where "g1 = g\<lparr>stack := (AtSleep, n) # (AtReturn, n) # fs,
    clock := clock g + Sleep_ns n, wld := w'\<rparr>"
  from StartPurgeLoop_three_steps[where PurgeCache = PurgeCache, OF Suc.prems w']
  have three: "run (StartPurgeLoop_step PurgeCache) 3 g = Some g1"
    by (simp add: g1_def)
  have "stack g1 = (AtSleep, n) # (AtReturn, n) # fs" by (simp add: g1_def)
  from Suc.IH[OF this] obtain g' where
    g': "run (StartPurgeLoop_step PurgeCache) (3 * k) g1 = Some g'"
        "stack g' = (AtSleep, n) # replicate k (AtReturn, n) @ (AtReturn, n) # fs"
    by blast
  have "3 * Suc k = 3 + 3 * k" by simp
  then have "run (StartPurgeLoop_step PurgeCache) (3 * Suc k) g = Some g'"
    using three g'(1) by (simp only: run_add option.case)
  moreover have "replicate k (AtReturn, n) @ (AtReturn, n) # fs = replicate (Suc k) (AtReturn, n) @ fs"
    by (simp add: replicate_app_Cons_same)
  ultimately show ?case using g'(2) by simp
qed

text \<open>
  The document-store purger deletes on the outcome of \<^verbatim>\<open>Insert\<close> (lines 199-205): every key
  of the snapshot when it succeeds, none when it fails.
\<close>

lemma MongoPurger_deletion_atomic:
  assumes "dbSession w = Some s \<or> (dbSession w = None \<and> Dial e (MongoURL e) = (Some s, None))"
  shows "\<exists>w'. MongoPurger_PurgeCache e [] w = Some (Inr w') \<and>
         (Insert e (MongoCollection e) (MongoPurger_keys e (GetKeysAndValues (store w))) = None \<longrightarrow>
            (\<forall>k \<in> fst ` set (GetKeysAndValues (store w)). map_of (store w') k = None)) \<and>
         (Insert e (MongoCollection e) (MongoPurger_keys e (GetKeysAndValues (store w))) \<noteq> None \<longrightarrow>
            store w' = store w)"
proof -
  from MongoPurger_PurgeCache_runs[OF assms, of "[]"] obtain w0 where
    w0: "store w0 = store w" "MongoPurger_PurgeCache e [] w = Some (Inr (MongoPurger_drain e [] w0))"
    by blast
  have "Insert e (MongoCollection e) (MongoPurger_keys e (GetKeysAndValues (store w))) = None \<longrightarrow>
            (\<forall>k \<in> fst ` set (GetKeysAndValues (store w)).
               map_of (store (MongoPurger_drain e [] w0)) k = None)"
    using w0(1) by (auto simp: MongoPurger_drain_eq Let_def map_of_DeleteKeys)
  moreover have
    "Insert e (MongoCollection e) (MongoPurger_keys e (GetKeysAndValues (store w))) \<noteq> None \<longrightarrow>
       store (MongoPurger_drain e [] w0) = store w"
    using w0(1) by (auto simp: MongoPurger_drain_eq Let_def SetKeys_Nil)
  ultimately show ?thesis
    using w0(2) by (intro exI[of _ "MongoPurger_drain e [] w0"]) simp
qed

section \<open>RecordHit\<close>

text \<open>
  Claim C2. Whatever \<^verbatim>\<open>uuid.NewV4()\<close> returned: a record whose encoding fails is logged,
  \<^verbatim>\<open>RecordHit\<close> returns the \<^verbatim>\<open>AnalyticsError\<close> and the store is as it was; a record whose
  encoding succeeds is written to the store by one \<^verbatim>\<open>SetKey\<close>, of the encoding under the
  staging key with expiry 0, nothing else changes, and \<^verbatim>\<open>RecordHit\<close> returns nil.
\<close>

theorem RecordHit_encoding:
  "(Marshal e r = Inl err \<longrightarrow>
      RecordHit e (u, uerr) r w =
        (Some AnalyticsError,
         w\<lparr>logs := logs w @ [LogError ''Error encoding analytics data:'', LogError err]\<rparr>) \<and>
      store (snd (RecordHit e (u, uerr) r w)) = store w)
   \<and> (Marshal e r = Inr enc \<longrightarrow>
      RecordHit e (u, uerr) r w =
        (None, w\<lparr>store := SetKey (keyName r u) enc 0 (store w)\<rparr>))"
  by (simp add: RecordHit_def)

theorem RecordHit_encoding_witness:
  "Marshal env_ok rec1 = Inr ''r1'' \<and>
   RecordHit env_ok (''6ba7b810-9dad-41d1-80b4-00c04fd430c8'', None) rec1 w_empty =
     (None, w_empty\<lparr>store := [(''20143510-6ba7b810-9dad-41d1-80b4-00c04fd430c8'', ''r1'')]\<rparr>) \<and>
   Marshal env_ok (rec1\<lparr>Method := ''PUT''\<rparr>) = Inl ''msgpack: unsupported value'' \<and>
   RecordHit env_ok (''6ba7b810-9dad-41d1-80b4-00c04fd430c8'', None) (rec1\<lparr>Method := ''PUT''\<rparr>)
       w_empty =
     (Some AnalyticsError,
      w_empty\<lparr>logs := [LogError ''Error encoding analytics data:'',
                         LogError ''msgpack: unsupported value'']\<rparr>) \<and>
   store (snd (RecordHit env_ok (''6ba7b810-9dad-41d1-80b4-00c04fd430c8'', None)
       (rec1\<lparr>Method := ''PUT''\<rparr>) w_empty)) = []"
proof -
  have m1: "Marshal env_ok rec1 = Inr ''r1''"
    by (simp add: env_ok_def)
  have m2: "Marshal env_ok (rec1\<lparr>Method := ''PUT''\<rparr>) = Inl ''msgpack: unsupported value''"
    by (simp add: env_ok_def rec1_def rec2_def)
  have k: "SetKey (keyName rec1 ''6ba7b810-9dad-41d1-80b4-00c04fd430c8'') ''r1'' 0 (store w_empty) =
      [(''20143510-6ba7b810-9dad-41d1-80b4-00c04fd430c8'', ''r1'')]"
    by code_simp
  have l: "logs w_empty = []" "store w_empty = []"
    by (simp_all add: w_empty_def)
  from RecordHit_encoding[of env_ok rec1 _ "''6ba7b810-9dad-41d1-80b4-00c04fd430c8''" None w_empty
      "''r1''"] m1 k
  have c1: "RecordHit env_ok (''6ba7b810-9dad-41d1-80b4-00c04fd430c8'', None) rec1 w_empty =
     (None, w_empty\<lparr>store := [(''20143510-6ba7b810-9dad-41d1-80b4-00c04fd430c8'', ''r1'')]\<rparr>)"
    by simp
  from RecordHit_encoding[of env_ok "rec1\<lparr>Method := ''PUT''\<rparr>" "''msgpack: unsupported value''"
      "''6ba7b810-9dad-41d1-80b4-00c04fd430c8''" None w_empty] m2 l
  have c2: "RecordHit env_ok (''6ba7b810-9dad-41d1-80b4-00c04fd430c8'', None)
       (rec1\<lparr>Method := ''PUT''\<rparr>) w_empty =
     (Some AnalyticsError,
      w_empty\<lparr>logs := [LogError ''Error encoding analytics data:'',
                         LogError ''msgpack: unsupported value'']\<rparr>)"
    "store (snd (RecordHit env_ok (''6ba7b810-9dad-41d1-80b4-00c04fd430c8'', None)
       (rec1\<lparr>Method := ''PUT''\<rparr>) w_empty)) = []"
    by simp_all
  from m1 c1 m2 c2 show ?thesis by (intro conjI)
qed

text \<open>
  Claim C8, at two captures in the same hour while the random source cannot be read.
  \<^verbatim>\<open>uuid.NewV4()\<close> hands back the zero UUID and an error both times; line 62 drops the
  error, so both calls build the same staging key and both return nil. The store then
  holds one entry: the second record has replaced the first.
\<close>

theorem RecordHit_key_collision:
  "snd uuid_failed = Some ''EOF'' \<and>
   rec1 \<noteq> rec2 \<and>
   keyName rec1 (fst uuid_failed) = ''20143510-00000000-0000-0000-0000-000000000000'' \<and>
   keyName rec2 (fst uuid_failed) = ''20143510-00000000-0000-0000-0000-000000000000'' \<and>
   fst (RecordHit env_ok uuid_failed rec1 w_empty) = None \<and>
   store (snd (RecordHit env_ok uuid_failed rec1 w_empty)) =
     [(''20143510-00000000-0000-0000-0000-000000000000'', ''r1'')] \<and>
   fst (RecordHit env_ok uuid_failed rec2 (snd (RecordHit env_ok uuid_failed rec1 w_empty))) = None \<and>
   store (snd (RecordHit env_ok uuid_failed rec2 (snd (RecordHit env_ok uuid_failed rec1 w_empty)))) =
     [(''20143510-00000000-0000-0000-0000-000000000000'', ''r2'')]"
  by code_simp

text \<open>
  Claim C10, as amended. \<^verbatim>\<open>RecordHit\<close> never looks at the error of \<^verbatim>\<open>uuid.NewV4()\<close>: when
  generation has failed it does what it does when generation has succeeded with the same
  UUID. The UUID that comes back with the error is not nil, and the key is built from
  it: a record that encodes is stored under that key and nil is returned, a record that
  does not encode gives the \<^verbatim>\<open>AnalyticsError\<close> and no write. \<^verbatim>\<open>RecordHit\<close> returns in every
  case.
\<close>

theorem RecordHit_ignores_uuid_error:
  "RecordHit e (u, Some uerr) r w = RecordHit e (u, None) r w \<and>
   (Marshal e r = Inr enc \<longrightarrow>
      RecordHit e (u, Some uerr) r w =
        (None, w\<lparr>store := SetKey (keyName r u) enc 0 (store w)\<rparr>)) \<and>
   (Marshal e r = Inl err \<longrightarrow>
      fst (RecordHit e (u, Some uerr) r w) = Some AnalyticsError \<and>
      store (snd (RecordHit e (u, Some uerr) r w)) = store w)"
  by (simp add: RecordHit_def)

theorem RecordHit_ignores_uuid_error_witness:
  "Marshal env_ok rec2 = Inr ''r2'' \<and>
   RecordHit env_ok (''00000000-0000-0000-0000-000000000000'', Some ''EOF'') rec2 w_empty =
     (None, w_empty\<lparr>store := [(''20143510-00000000-0000-0000-0000-000000000000'', ''r2'')]\<rparr>) \<and>
   Marshal env_ok (rec2\<lparr>Method := ''PUT''\<rparr>) = Inl ''msgpack: unsupported value'' \<and>
   fst (RecordHit env_ok (''00000000-0000-0000-0000-000000000000'', Some ''EOF'')
     (rec2\<lparr>Method := ''PUT''\<rparr>) w_empty) = Some AnalyticsError"
proof -
  have m1: "Marshal env_ok rec2 = Inr ''r2''"
    by (simp add: env_ok_def rec1_def rec2_def)
  have m2: "Marshal env_ok (rec2\<lparr>Method := ''PUT''\<rparr>) = Inl ''msgpack: unsupported value''"
    by (simp add: env_ok_def rec1_def rec2_def)
  have k: "SetKey (keyName rec2 ''00000000-0000-0000-0000-000000000000'') ''r2'' 0 (store w_empty) =
      [(''20143510-00000000-0000-0000-0000-000000000000'', ''r2'')]"
    by code_simp
  from RecordHit_ignores_uuid_error[of env_ok "''00000000-0000-0000-0000-000000000000''" "''EOF''"
      rec2 w_empty "''r2''", THEN conjunct2, THEN conjunct1] m1 k
  have c1: "RecordHit env_ok (''00000000-0000-0000-0000-000000000000'', Some ''EOF'') rec2 w_empty =
     (None, w_empty\<lparr>store := [(''20143510-00000000-0000-0000-0000-000000000000'', ''r2'')]\<rparr>)"
    by simp
  from RecordHit_ignores_uuid_error[of env_ok "''00000000-0000-0000-0000-000000000000''" "''EOF''"
      "rec2\<lparr>Method := ''PUT''\<rparr>" w_empty _ "''msgpack: unsupported value''",
      THEN conjunct2, THEN conjunct2] m2
  have c2: "fst (RecordHit env_ok (''00000000-0000-0000-0000-000000000000'', Some ''EOF'')
     (rec2\<lparr>Method := ''PUT''\<rparr>) w_empty) = Some AnalyticsError"
    by simp
  from m1 c1 m2 c2 show ?thesis by (intro conjI)
qed

text \<open>
  Claim C10 as first stated, that a call in which generation fails ends in a nil-pointer
  failure, fails: given what \<^verbatim>\<open>uuid.NewV4()\<close> returns when the random source cannot be
  read, \<^verbatim>\<open>RecordHit\<close> stores the record under the key of the zero UUID and returns nil.
\<close>

theorem RecordHit_uuid_failure_counterexample:
  "uuid_failed = (''00000000-0000-0000-0000-000000000000'', Some ''EOF'') \<and>
   RecordHit env_ok uuid_failed rec1 w_empty =
     (None, w_empty\<lparr>store := [(''20143510-00000000-0000-0000-0000-000000000000'', ''r1'')]\<rparr>)"
  by code_simp

section \<open>The drain cycle\<close>

text \<open>
  Claim C1, at two cycles of the flat-file purger over a store of two records, in which
  the batch is not written. In the first \<^verbatim>\<open>os.Create\<close> fails: line 100 drops its error
  and the writer is built on a nil file. In the second the file is created and the disk
  takes no byte. In both, every \<^verbatim>\<open>Write\<close> of the \<^verbatim>\<open>csv.Writer\<close> returns nil, since the
  lines only fill its buffer; the outcome of \<^verbatim>\<open>Flush\<close> at line 141 is not read; nothing is
  logged; no row is in any file; and line 143 deletes both keys from the store.
\<close>

theorem CSVPurger_deletes_unwritten_batch:
  "store w_two = [(''20143510-a'', ''r1''), (''20143510-b'', ''r2'')] \<and>
   files (CSVPurger_PurgeCache env_no_file [] w_two) = [] \<and>
   logs (CSVPurger_PurgeCache env_no_file [] w_two) = [] \<and>
   store (CSVPurger_PurgeCache env_no_file [] w_two) = [] \<and>
   files (CSVPurger_PurgeCache env_disk_full [] w_two) = [(''/tmp/csv2014-March-5-10-30.csv'', [])] \<and>
   logs (CSVPurger_PurgeCache env_disk_full [] w_two) = [] \<and>
   store (CSVPurger_PurgeCache env_disk_full [] w_two) = []"
  by code_simp

text \<open>
  Claim C3. A cycle deletes only keys of its snapshot. Whatever other goroutines write
  to the store after the snapshot was read, a key that was not in the snapshot is, when
  the cycle completes, mapped as those writes left it: a record inserted during the
  cycle is still there. This holds for the flat-file purger whether the header and the
  rows are written or not, and for the document-store purger whether the insert
  succeeds or fails.
\<close>

theorem PurgeCache_snapshot_isolation:
  assumes "k \<notin> fst ` set (GetKeysAndValues (store w))"
  shows "map_of (store (CSVPurger_PurgeCache e during w)) k = map_of (SetKeys during (store w)) k \<and>
     (dbSession w = Some s \<or> (dbSession w = None \<and> Dial e (MongoURL e) = (Some s, None)) \<longrightarrow>
        (\<exists>w'. MongoPurger_PurgeCache e during w = Some (Inr w') \<and>
              map_of (store w') k = map_of (SetKeys during (store w)) k))"
proof (intro conjI impI)
  from CSVPurger_PurgeCache_store[of e during w] assms
  show "map_of (store (CSVPurger_PurgeCache e during w)) k = map_of (SetKeys during (store w)) k"
    by (auto simp: map_of_DeleteKeys)
next
  assume "dbSession w = Some s \<or> (dbSession w = None \<and> Dial e (MongoURL e) = (Some s, None))"
  from MongoPurger_PurgeCache_runs[OF this, of during] obtain w0 where
    w0: "store w0 = store w"
      "MongoPurger_PurgeCache e during w = Some (Inr (MongoPurger_drain e during w0))"
    by blast
  have "map_of (store (MongoPurger_drain e during w0)) k = map_of (SetKeys during (store w)) k"
    using w0(1) assms
    by (auto simp: MongoPurger_drain_eq Let_def map_of_DeleteKeys split: option.splits)
  with w0(2) show "\<exists>w'. MongoPurger_PurgeCache e during w = Some (Inr w') \<and>
              map_of (store w') k = map_of (SetKeys during (store w)) k"
    by (intro exI[of _ "MongoPurger_drain e during w0"]) simp
qed

theorem PurgeCache_snapshot_isolation_witness:
  "''20143510-d'' \<notin> fst ` set (GetKeysAndValues (store w_two)) \<and>
   map_of (store (CSVPurger_PurgeCache env_ok [(''20143510-d'', ''r1'')] w_two)) ''20143510-d'' =
     Some ''r1'' \<and>
   (\<exists>w'. MongoPurger_PurgeCache env_insert_fails [(''20143510-d'', ''r1'')] w_two = Some (Inr w') \<and>
         map_of (store w') ''20143510-d'' = Some ''r1'')"
proof -
  have k: "''20143510-d'' \<notin> fst ` set (GetKeysAndValues (store w_two))"
    by (simp add: GetKeysAndValues_def w_two_def w_empty_def)
  have p: "map_of (SetKeys [(''20143510-d'', ''r1'')] (store w_two)) ''20143510-d'' = Some ''r1''"
    by (simp add: SetKeys_def map_of_SetKey)
  have d: "dbSession w_two = None \<and>
      Dial env_insert_fails (MongoURL env_insert_fails) = (Some 1, None)"
    by (simp add: w_two_def w_empty_def env_insert_fails_def env_ok_def)
  from PurgeCache_snapshot_isolation[OF k, of env_ok "[(''20143510-d'', ''r1'')]" 1] p
  have c1: "map_of (store (CSVPurger_PurgeCache env_ok [(''20143510-d'', ''r1'')] w_two))
      ''20143510-d'' = Some ''r1''"
    by simp
  from PurgeCache_snapshot_isolation[OF k, of env_insert_fails "[(''20143510-d'', ''r1'')]" 1] p d
  have c2: "\<exists>w'. MongoPurger_PurgeCache env_insert_fails [(''20143510-d'', ''r1'')] w_two =
         Some (Inr w') \<and> map_of (store w') ''20143510-d'' = Some ''r1''"
    by simp
  from k c1 c2 show ?thesis by blast
qed

text \<open>
  Claim C5, at a snapshot with one record and one payload that does not decode. The
  batch of the document-store purger has one slot per snapshot entry, and the slot of
  the undecodable entry stays nil: the batch handed to \<^verbatim>\<open>Insert\<close> is the record and a
  nil document, not the record alone, and with an insert that accepts it the nil
  document reaches the collection.
\<close>

theorem MongoPurger_batch_nil_slot:
  "MongoPurger_keys env_ok (GetKeysAndValues (store w_bad)) = [Some rec1, None] \<and>
   map (\<lambda>(k, v). Unmarshal env_ok v) (GetKeysAndValues (store w_bad)) =
     [Inr rec1, Inl ''msgpack: invalid code''] \<and>
   map_option (map_sum id collection) (MongoPurger_PurgeCache env_ok [] w_bad) =
     Some (Inr [Some rec1, None])"
  by code_simp

section \<open>The flat file\<close>

text \<open>
  Claim C6, as amended. When the output file is created and takes every write made to
  it, the final flush included, a cycle over a snapshot whose values all decode leaves
  in the file the line of the header row, then the line of one data row per record of
  the snapshot, in the order of the snapshot, with the columns method, path, content
  length, user agent, day, month name, year, hour, response code, API name and API
  version.
\<close>

theorem CSVPurger_file_contents:
  assumes "Create e (CSVPurger_fname (CSVDir e) (Now e))"
      and "\<forall>c b. fileWrite e c b = None"
      and "map (\<lambda>(k, v). Unmarshal e v) (GetKeysAndValues (store w)) = map Inr ds"
  shows "map_of (files (CSVPurger_PurgeCache e during w)) (CSVPurger_fname (CSVDir e) (Now e)) =
     Some (concat (map (csvEncode e)
       ([''METHOD'', ''PATH'', ''SIZE'', ''UA'', ''DAY'', ''MONTH'', ''YEAR'', ''HOUR'',
         ''RESPONSE'', ''APINAME'', ''APIVERSION'']
        # map (\<lambda>d. [Method d, Path d, FormatInt (ContentLength d), UserAgent d,
                     Itoa (Day d), Month_String (Month d), Itoa (Year d), Itoa (Hour d),
                     Itoa (ResponseCode d), APIName d, APIVersion d]) ds)))"
proof -
  define fname where "fname = CSVPurger_fname (CSVDir e) (Now e)"
  define w1 where "w1 = (case MkdirAll e (CSVDir e) of
                  Some ferr \<Rightarrow> w\<lparr>logs := logs w @ [LogError ferr]\<rparr>
                | None \<Rightarrow> w\<lparr>dirs := List.insert (CSVDir e) (dirs w)\<rparr>)"
  define w2 where "w2 = w1\<lparr>files := AList.update fname [] (files w1)\<rparr>"
  define writer1 where
    "writer1 = csv_Write e \<lparr>wbuf = [], werr = None, outfile = Some []\<rparr> headers"
  have st: "store w2 = store w"
    by (simp add: w2_def w1_def split: option.splits)
  from csv_Write_ok[OF assms(2), of "\<lparr>wbuf = [], werr = None, outfile = Some []\<rparr>" "[]" headers]
  have h: "werr writer1 = None" "outfile writer1 \<noteq> None"
    "the (outfile writer1) @ wbuf writer1 = csvEncode e headers"
    by (simp_all add: writer1_def)
  then obtain c1 where c1: "outfile writer1 = Some c1" by auto
  from CSVPurger_loop_written[OF assms(2) h(1) c1,
      of "GetKeysAndValues (store w)" "[]" "logs (w2\<lparr>store := SetKeys during (store w2)\<rparr>)"]
  obtain writer2 where
    l: "CSVPurger_loop e (GetKeysAndValues (store w))
          ([], writer1, logs (w2\<lparr>store := SetKeys during (store w2)\<rparr>)) =
        ([] @ map fst (GetKeysAndValues (store w)), writer2,
         logs (w2\<lparr>store := SetKeys during (store w2)\<rparr>) @
           decode_errors e (GetKeysAndValues (store w)))"
      "werr writer2 = None" "outfile writer2 \<noteq> None"
      "the (outfile writer2) @ wbuf writer2 =
         c1 @ wbuf writer1 @ concat (map (\<lambda>(k, v). case Unmarshal e v of
                            Inl err \<Rightarrow> []
                          | Inr decoded \<Rightarrow> csvEncode e (toWrite decoded))
           (GetKeysAndValues (store w)))"
    by blast
  from l(3) obtain c2 where c2: "outfile writer2 = Some c2" by auto
  have "c2 @ wbuf writer2 = (the (outfile writer1) @ wbuf writer1) @
      concat (map (\<lambda>d. csvEncode e (toWrite d)) ds)"
    using l(4) c1 c2 decoded_lines[OF assms(3)] by simp
  then have content: "c2 @ wbuf writer2 =
      csvEncode e headers @ concat (map (\<lambda>d. csvEncode e (toWrite d)) ds)"
    using h(3) by simp
  have fl: "bufio_Flush e writer2 = writer2\<lparr>wbuf := [], outfile := Some (c2 @ wbuf writer2)\<rparr>"
    using bufio_Flush_ok[OF assms(2) l(2) c2] .
  have "files (CSVPurger_PurgeCache e during w) =
      AList.update fname (c2 @ wbuf writer2) (files w2)"
    using assms(1) h(1) l(1) st fl
    by (simp add: CSVPurger_PurgeCache_def Let_def fname_def[symmetric] w1_def[symmetric]
        w2_def[symmetric] writer1_def[symmetric] close_file_def)
  then have "map_of (files (CSVPurger_PurgeCache e during w)) fname = Some (c2 @ wbuf writer2)"
    by (simp add: update_conv')
  with content show ?thesis
    by (simp add: fname_def headers_def toWrite_def comp_def)
qed

theorem CSVPurger_file_contents_witness:
  "Create env_ok (CSVPurger_fname (CSVDir env_ok) (Now env_ok)) \<and>
   map (\<lambda>(k, v). Unmarshal env_ok v) (GetKeysAndValues (store w_two)) = map Inr [rec1, rec2] \<and>
   map_of (files (CSVPurger_PurgeCache env_ok [] w_two)) ''/tmp/csv2014-March-5-10-30.csv'' =
     Some (''METHOD,PATH,SIZE,UA,DAY,MONTH,YEAR,HOUR,RESPONSE,APINAME,APIVERSION\<newline>'' @
           ''GET,/widgets,512,curl,5,March,2014,10,200,Widgets,v1\<newline>'' @
           ''POST,/orders,-1,go,5,March,2014,10,500,Orders,v2\<newline>'')"
proof -
  have c: "Create env_ok (CSVPurger_fname (CSVDir env_ok) (Now env_ok))"
    and f: "\<forall>c b. fileWrite env_ok c b = None"
    by (simp_all add: env_ok_def)
  have u: "map (\<lambda>(k, v). Unmarshal env_ok v) (GetKeysAndValues (store w_two)) = map Inr [rec1, rec2]"
    by (simp add: env_ok_def GetKeysAndValues_def w_two_def w_empty_def)
  have n: "CSVPurger_fname (CSVDir env_ok) (Now env_ok) = ''/tmp/csv2014-March-5-10-30.csv''"
    by code_simp
  have lines: "concat (map (csvEncode env_ok)
       ([''METHOD'', ''PATH'', ''SIZE'', ''UA'', ''DAY'', ''MONTH'', ''YEAR'', ''HOUR'',
         ''RESPONSE'', ''APINAME'', ''APIVERSION'']
        # map (\<lambda>d. [Method d, Path d, FormatInt (ContentLength d), UserAgent d,
                     Itoa (Day d), Month_String (Month d), Itoa (Year d), Itoa (Hour d),
                     Itoa (ResponseCode d), APIName d, APIVersion d]) [rec1, rec2])) =
      ''METHOD,PATH,SIZE,UA,DAY,MONTH,YEAR,HOUR,RESPONSE,APINAME,APIVERSION\<newline>'' @
      ''GET,/widgets,512,curl,5,March,2014,10,200,Widgets,v1\<newline>'' @
      ''POST,/orders,-1,go,5,March,2014,10,500,Orders,v2\<newline>''"
    by code_simp
  from CSVPurger_file_contents[OF c f u, of "[]"] n lines
  have "map_of (files (CSVPurger_PurgeCache env_ok [] w_two)) ''/tmp/csv2014-March-5-10-30.csv'' =
     Some (''METHOD,PATH,SIZE,UA,DAY,MONTH,YEAR,HOUR,RESPONSE,APINAME,APIVERSION\<newline>'' @
           ''GET,/widgets,512,curl,5,March,2014,10,200,Widgets,v1\<newline>'' @
           ''POST,/orders,-1,go,5,March,2014,10,500,Orders,v2\<newline>'')"
    by (simp only:)
  with c u show ?thesis by (intro conjI)
qed

text \<open>
  Claim C6 as first stated, for every cycle over a snapshot that decodes, fails: both
  values decode, the file is created, the two rows and the header are accepted by the
  writer, and the disk refuses the flush of line 141. The file is left empty.
\<close>

theorem CSVPurger_file_contents_counterexample:
  "map (\<lambda>(k, v). Unmarshal env_disk_full v) (GetKeysAndValues (store w_two)) =
     [Inr rec1, Inr rec2] \<and>
   map_of (files (CSVPurger_PurgeCache env_disk_full [] w_two)) ''/tmp/csv2014-March-5-10-30.csv'' =
     Some []"
  by code_simp

text \<open>
  Claim C7, at the directory \<^verbatim>\<open>/tmp/csv\<close> and the time 2014-03-05 10:30. The directory
  is made, but the format string of line 94 puts nothing between the directory and the
  year: the file is \<^verbatim>\<open>/tmp/csv2014-March-5-10-30.csv\<close>, beside the directory and not in
  it, where the claim has \<^verbatim>\<open>/tmp/csv/2014-March-5-10-30.csv\<close>.
\<close>

theorem CSVPurger_fname_no_separator:
  "CSVDir env_ok = ''/tmp/csv'' \<and>
   CSVPurger_fname (CSVDir env_ok) (Now env_ok) = ''/tmp/csv2014-March-5-10-30.csv'' \<and>
   dirs (CSVPurger_PurgeCache env_ok [] w_two) = [''/tmp/csv''] \<and>
   map fst (files (CSVPurger_PurgeCache env_ok [] w_two)) = [''/tmp/csv2014-March-5-10-30.csv'']"
  by code_simp

section \<open>The document-store connection\<close>

text \<open>
  Claim C9. A cycle that finds no session logs that, dials, and then runs the cycle
  proper exactly once with the new session; a cycle that finds a session runs with it
  and leaves it in place. When dialling fails the call ends in \<^verbatim>\<open>log.Panic\<close> with the
  error of \<^verbatim>\<open>mgo.Dial\<close>: nothing is returned to retry. When the insert fails the cycle
  returns normally, the error is logged after the decode errors, and the store and the
  collection are as they were.
\<close>

theorem MongoPurger_connection:
  "(dbSession w = None \<and> Dial e (MongoURL e) = (Some s, None) \<longrightarrow>
      MongoPurger_PurgeCache e during w =
        Some (Inr (MongoPurger_drain e during
          (w\<lparr>logs := logs w @ [LogInfo ''Not connected to analytics store, connecting...''],
             dbSession := Some s\<rparr>))))
   \<and> (dbSession w = Some s \<longrightarrow>
      MongoPurger_PurgeCache e during w = Some (Inr (MongoPurger_drain e during w)) \<and>
      dbSession (MongoPurger_drain e during w) = Some s)
   \<and> (dbSession w = None \<and> Dial e (MongoURL e) = (s', Some msg) \<longrightarrow>
      MongoPurger_PurgeCache e during w = Some (Inl (LogPanic msg)))
   \<and> (dbSession w = Some s \<and> GetKeysAndValues (store w) \<noteq> [] \<and>
       Insert e (MongoCollection e) (MongoPurger_keys e (GetKeysAndValues (store w))) = Some err \<longrightarrow>
      (\<exists>w'. MongoPurger_PurgeCache e [] w = Some (Inr w') \<and>
            store w' = store w \<and> collection w' = collection w \<and>
            logs w' = logs w @ decode_errors e (GetKeysAndValues (store w)) @
              [LogError ''Problem inserting to mongo collection'', LogError err]))"
proof (intro conjI impI)
  assume "dbSession w = None \<and> Dial e (MongoURL e) = (Some s, None)"
  then show "MongoPurger_PurgeCache e during w =
        Some (Inr (MongoPurger_drain e during
          (w\<lparr>logs := logs w @ [LogInfo ''Not connected to analytics store, connecting...''],
             dbSession := Some s\<rparr>)))"
    by (simp add: MongoPurger_PurgeCache_connects)
next
  assume "dbSession w = Some s"
  then show "MongoPurger_PurgeCache e during w = Some (Inr (MongoPurger_drain e during w))"
    by (rule MongoPurger_PurgeCache_connected)
next
  assume "dbSession w = Some s"
  then show "dbSession (MongoPurger_drain e during w) = Some s"
    by (simp add: MongoPurger_drain_eq Let_def split: option.splits)
next
  assume "dbSession w = None \<and> Dial e (MongoURL e) = (s', Some msg)"
  then show "MongoPurger_PurgeCache e during w = Some (Inl (LogPanic msg))"
    by (simp add: MongoPurger_PurgeCache_dial_error)
next
  assume a: "dbSession w = Some s \<and> GetKeysAndValues (store w) \<noteq> [] \<and>
       Insert e (MongoCollection e) (MongoPurger_keys e (GetKeysAndValues (store w))) = Some err"
  then have "MongoPurger_PurgeCache e [] w = Some (Inr (MongoPurger_drain e [] w))"
    by (simp add: MongoPurger_PurgeCache_connected)
  moreover from a have "store (MongoPurger_drain e [] w) = store w"
    "collection (MongoPurger_drain e [] w) = collection w"
    "logs (MongoPurger_drain e [] w) = logs w @ decode_errors e (GetKeysAndValues (store w)) @
              [LogError ''Problem inserting to mongo collection'', LogError err]"
    by (simp_all add: MongoPurger_drain_eq Let_def SetKeys_Nil)
  ultimately show "\<exists>w'. MongoPurger_PurgeCache e [] w = Some (Inr w') \<and>
            store w' = store w \<and> collection w' = collection w \<and>
            logs w' = logs w @ decode_errors e (GetKeysAndValues (store w)) @
              [LogError ''Problem inserting to mongo collection'', LogError err]"
    by (intro exI[of _ "MongoPurger_drain e [] w"]) simp
qed

theorem MongoPurger_connection_witness:
  "dbSession w_two = None \<and> Dial env_ok (MongoURL env_ok) = (Some 1, None) \<and>
   MongoPurger_PurgeCache env_ok [] w_two =
     Some (Inr (w_two\<lparr>store := [],
                      logs := [LogInfo ''Not connected to analytics store, connecting...''],
                      dbSession := Some 1, collection := [Some rec1, Some rec2]\<rparr>)) \<and>
   Dial env_dial_fails (MongoURL env_dial_fails) = (None, Some ''no reachable servers'') \<and>
   MongoPurger_PurgeCache env_dial_fails [] w_two = Some (Inl (LogPanic ''no reachable servers'')) \<and>
   Insert env_insert_fails (MongoCollection env_insert_fails)
     (MongoPurger_keys env_insert_fails (GetKeysAndValues (store (w_two\<lparr>dbSession := Some 1\<rparr>)))) =
     Some ''no reachable servers'' \<and>
   MongoPurger_PurgeCache env_insert_fails [] (w_two\<lparr>dbSession := Some 1\<rparr>) =
     Some (Inr (w_two\<lparr>logs := [LogError ''Problem inserting to mongo collection'',
                                LogError ''no reachable servers''],
                      dbSession := Some 1\<rparr>))"
proof -
  have d1: "dbSession w_two = None \<and> Dial env_ok (MongoURL env_ok) = (Some 1, None)"
    by (simp add: w_two_def w_empty_def env_ok_def)
  have d2: "dbSession w_two = None \<and>
      Dial env_dial_fails (MongoURL env_dial_fails) = (None, Some ''no reachable servers'')"
    by (simp add: w_two_def w_empty_def env_dial_fails_def env_ok_def)
  have d3: "dbSession (w_two\<lparr>dbSession := Some 1\<rparr>) = Some 1 \<and>
      GetKeysAndValues (store (w_two\<lparr>dbSession := Some 1\<rparr>)) \<noteq> [] \<and>
      Insert env_insert_fails (MongoCollection env_insert_fails)
        (MongoPurger_keys env_insert_fails (GetKeysAndValues (store (w_two\<lparr>dbSession := Some 1\<rparr>)))) =
        Some ''no reachable servers''"
    by (simp add: w_two_def w_empty_def env_insert_fails_def GetKeysAndValues_def)
  have v1: "MongoPurger_drain env_ok []
          (w_two\<lparr>logs := logs w_two @ [LogInfo ''Not connected to analytics store, connecting...''],
             dbSession := Some 1\<rparr>) =
      w_two\<lparr>store := [], logs := [LogInfo ''Not connected to analytics store, connecting...''],
                      dbSession := Some 1, collection := [Some rec1, Some rec2]\<rparr>"
    by code_simp
  have v3: "decode_errors env_insert_fails (GetKeysAndValues (store (w_two\<lparr>dbSession := Some 1\<rparr>))) = []"
    by code_simp
  from MongoPurger_connection[of w_two env_ok 1 "[]"] d1 v1
  have c1: "MongoPurger_PurgeCache env_ok [] w_two =
     Some (Inr (w_two\<lparr>store := [],
                      logs := [LogInfo ''Not connected to analytics store, connecting...''],
                      dbSession := Some 1, collection := [Some rec1, Some rec2]\<rparr>))"
    by simp
  from MongoPurger_connection[of w_two env_dial_fails _ "[]" None "''no reachable servers''"] d2
  have c2: "MongoPurger_PurgeCache env_dial_fails [] w_two =
      Some (Inl (LogPanic ''no reachable servers''))"
    by simp
  from MongoPurger_connection[of "w_two\<lparr>dbSession := Some 1\<rparr>" env_insert_fails 1 "[]" _ _
      "''no reachable servers''"] d3 v3
  obtain w' where w': "MongoPurger_PurgeCache env_insert_fails [] (w_two\<lparr>dbSession := Some 1\<rparr>) =
      Some (Inr w')" "store w' = store w_two" "collection w' = collection w_two"
      "logs w' = logs w_two @ [LogError ''Problem inserting to mongo collection'',
                                LogError ''no reachable servers'']"
    by auto
  have "MongoPurger_PurgeCache env_insert_fails [] (w_two\<lparr>dbSession := Some 1\<rparr>) =
     Some (Inr (w_two\<lparr>logs := [LogError ''Problem inserting to mongo collection'',
                                LogError ''no reachable servers''],
                      dbSession := Some 1\<rparr>))"
    by code_simp
  with d1 d2 d3 c1 c2 w' show ?thesis by simp
qed

section \<open>The scheduler\<close>

text \<open>
  Claim C4, as amended. For both purgers \<^verbatim>\<open>StartPurgeLoop\<close> is self-recursive: each cycle
  sleeps, drains and then calls \<^verbatim>\<open>StartPurgeLoop\<close> again from inside the running call.
  Cycles never overlap, but after \<open>k\<close> cycles the goroutine's stack holds \<open>k + 1\<close>
  activations, \<open>k\<close> of them waiting at a return that is never reached. (For the
  document-store purger: as long as dialling succeeds, so that no cycle panics.)
\<close>

theorem StartPurgeLoop_stack_grows:
  "(\<exists>g. run (CSVPurger_StartPurgeLoop_step envs) (3 * k) (StartPurgeLoop n w) = Some g \<and>
        stack g = (AtSleep, n) # replicate k (AtReturn, n) \<and> length (stack g) = k + 1)
   \<and> ((\<forall>t. \<exists>s. Dial (envs t) (MongoURL (envs t)) = (Some s, None)) \<longrightarrow>
       (\<exists>g. run (MongoPurger_StartPurgeLoop_step envs) (3 * k) (StartPurgeLoop n w) = Some g \<and>
            stack g = (AtSleep, n) # replicate k (AtReturn, n) \<and> length (stack g) = k + 1))"
proof (intro conjI impI)
  have s: "stack (StartPurgeLoop n w) = (AtSleep, n) # []"
    by (simp add: StartPurgeLoop_def)
  have "\<forall>t w. (\<lambda>t w. Some (CSVPurger_PurgeCache (envs t) [] w)) t w \<noteq> None" by simp
  from StartPurgeLoop_cycles[where PurgeCache = "\<lambda>t w. Some (CSVPurger_PurgeCache (envs t) [] w)", OF this s, of k]
  show "\<exists>g. run (CSVPurger_StartPurgeLoop_step envs) (3 * k) (StartPurgeLoop n w) = Some g \<and>
        stack g = (AtSleep, n) # replicate k (AtReturn, n) \<and> length (stack g) = k + 1"
    by (auto simp: CSVPurger_StartPurgeLoop_step_def)
  assume dial: "\<forall>t. \<exists>s. Dial (envs t) (MongoURL (envs t)) = (Some s, None)"
  have "\<forall>t w. (\<lambda>t w. case MongoPurger_PurgeCache (envs t) [] w of
                 Some (Inr w') \<Rightarrow> Some w'
               | _ \<Rightarrow> None) t w \<noteq> None"
  proof (intro allI)
    fix t w
    from dial obtain s where d: "Dial (envs t) (MongoURL (envs t)) = (Some s, None)" by blast
    show "(case MongoPurger_PurgeCache (envs t) [] w of
                 Some (Inr w') \<Rightarrow> Some w'
               | _ \<Rightarrow> None) \<noteq> None"
    proof (cases "dbSession w")
      case None
      from MongoPurger_PurgeCache_connects[OF None d] show ?thesis by simp
    next
      case (Some a)
      from MongoPurger_PurgeCache_connected[OF Some] show ?thesis by simp
    qed
  qed
  from StartPurgeLoop_cycles[where PurgeCache = "\<lambda>t w. case MongoPurger_PurgeCache (envs t) [] w of
                 Some (Inr w') \<Rightarrow> Some w'
               | _ \<Rightarrow> None", OF this s, of k]
  show "\<exists>g. run (MongoPurger_StartPurgeLoop_step envs) (3 * k) (StartPurgeLoop n w) = Some g \<and>
        stack g = (AtSleep, n) # replicate k (AtReturn, n) \<and> length (stack g) = k + 1"
    by (auto simp: MongoPurger_StartPurgeLoop_step_def)
qed

theorem StartPurgeLoop_stack_grows_witness:
  "Dial env_ok (MongoURL env_ok) = (Some 1, None) \<and>
   (\<exists>g. run (MongoPurger_StartPurgeLoop_step (\<lambda>t. env_ok)) 6 (StartPurgeLoop 10 w_two) = Some g \<and>
        stack g = [(AtSleep, 10), (AtReturn, 10), (AtReturn, 10)])"
proof -
  have d: "\<forall>t. \<exists>s. Dial ((\<lambda>t. env_ok) t) (MongoURL ((\<lambda>t. env_ok) t)) = (Some s, None)"
    by (simp add: env_ok_def)
  from StartPurgeLoop_stack_grows[of "\<lambda>t. env_ok" 2 10 w_two] d
  have "\<exists>g. run (MongoPurger_StartPurgeLoop_step (\<lambda>t. env_ok)) (3 * 2) (StartPurgeLoop 10 w_two) = Some g \<and>
        stack g = (AtSleep, 10) # replicate 2 (AtReturn, 10)"
    by blast
  moreover have "(AtSleep, 10) # replicate 2 (AtReturn, 10) = [(AtSleep, 10::int), (AtReturn, 10), (AtReturn, 10)]"
    by (simp add: numeral_2_eq_2)
  moreover have "Dial env_ok (MongoURL env_ok) = (Some 1, None)" by (simp add: env_ok_def)
  ultimately show ?thesis by simp
qed

text \<open>
  Claim C4 as first stated, that the loop is iterative and its call stack does not grow,
  fails: the goroutine starts with one frame, and after four cycles (twelve
  statements) it holds five, for either purger.
\<close>

theorem StartPurgeLoop_iterative_counterexample:
  "map_option (\<lambda>g. length (stack g))
     (run (CSVPurger_StartPurgeLoop_step (\<lambda>t. env_ok)) 0 (StartPurgeLoop 10 w_two)) = Some 1 \<and>
   map_option (\<lambda>g. length (stack g))
     (run (CSVPurger_StartPurgeLoop_step (\<lambda>t. env_ok)) 12 (StartPurgeLoop 10 w_two)) = Some 5 \<and>
   map_option (\<lambda>g. length (stack g))
     (run (MongoPurger_StartPurgeLoop_step (\<lambda>t. env_ok)) 12 (StartPurgeLoop 10 w_two)) = Some 5 \<and>
   map_option stack
     (run (CSVPurger_StartPurgeLoop_step (\<lambda>t. env_ok)) 6 (StartPurgeLoop 10 w_two)) =
     Some [(AtSleep, 10), (AtReturn, 10), (AtReturn, 10)]"
  by code_simp

end
